theory Spec2Isabelle
  imports Main "HOL-Library.Word" "HOL-Library.Sublist"
begin

section \<open>Package sshclient: the bastion\<close>

text \<open>
  The code of package \<^verbatim>\<open>sshclient\<close> stands in \<^verbatim>\<open>pkg/virtualnetwork/ssh_forwarder.go\<close>
  from line 230 on; line numbers below are those of that file.
\<close>

subsection \<open>Data\<close>

text \<open>
  Keys and signers are opaque to this code; they are told apart by a number. A host-key
  callback of \<^verbatim>\<open>golang.org/x/crypto/ssh\<close> is one of the two the code constructs:
  \<^verbatim>\<open>InsecureIgnoreHostKey()\<close>, which accepts any host key, and \<^verbatim>\<open>FixedHostKey(key)\<close>,
  which accepts only that key.
\<close>

datatype pubkey = PubKey nat

datatype signer = Signer nat

datatype auth_method = PublicKeys signer | Password string

datatype host_key_callback = InsecureIgnoreHostKey | FixedHostKey pubkey

fun check_host_key :: "host_key_callback \<Rightarrow> pubkey \<Rightarrow> bool" where
  "check_host_key InsecureIgnoreHostKey presented = True"
| "check_host_key (FixedHostKey key) presented = (key = presented)"

datatype ssh_client = SSHClient

datatype net_conn = NetConn

record ClientConfig =
  User :: string
  Auth :: "auth_method list"
  HostKeyCallback :: host_key_callback
  HostKeyAlgorithms :: "string list"
  Timeout :: "64 word"

text \<open>
  \<^verbatim>\<open>Bastion\<close> (lines 252-259). The \<^verbatim>\<open>connect\<close> field is a callback into the network; what
  it returns is part of the environment below.
\<close>

record Bastion =
  Client :: "ssh_client option"
  Config :: "ClientConfig option"
  Host :: string
  Port :: string
  Path :: string

definition Bastion_zero :: Bastion where
  "Bastion_zero = \<lparr>Client = None, Config = None, Host = [], Port = [], Path = []\<rparr>"

text \<open>
  A \<^verbatim>\<open>*url.URL\<close> as the code reads it: through \<^verbatim>\<open>Hostname()\<close>, \<^verbatim>\<open>Port()\<close>, \<^verbatim>\<open>Path\<close>,
  \<^verbatim>\<open>User\<close> (which may be nil) and \<^verbatim>\<open>Query()\<close>, the query parameters in the order they
  appear. \<^verbatim>\<open>Values.Get\<close> returns the first value of a key, or the empty string.
\<close>

record Userinfo =
  username :: string
  password :: "string option"

record URL =
  url_Hostname :: string
  url_Port :: string
  url_Path :: string
  url_User :: "Userinfo option"
  url_Query :: "(string \<times> string) list"

definition Query_Get :: "(string \<times> string) list \<Rightarrow> string \<Rightarrow> string" where
  "Query_Get q k = (case map_of q k of None \<Rightarrow> [] | Some v \<Rightarrow> v)"

definition User_Password :: "Userinfo option \<Rightarrow> string option" where
  "User_Password u = (case u of None \<Rightarrow> None | Some ui \<Rightarrow> password ui)"

definition User_Username :: "Userinfo option \<Rightarrow> string" where
  "User_Username u = (case u of None \<Rightarrow> [] | Some ui \<Rightarrow> username ui)"

text \<open>
  \<^verbatim>\<open>strconv.ParseBool\<close>; the code drops its error, so every string outside the two lists
  reads as \<^verbatim>\<open>false\<close>.
\<close>

definition ParseBool :: "string \<Rightarrow> bool" where
  "ParseBool str = (str \<in> set [''1'', ''t'', ''T'', ''true'', ''TRUE'', ''True''])"

datatype ssh_error =
    ErrReadFile
  | ErrParseKey
  | ErrIdentity string ssh_error
  | ErrNoAuthMethods
  | ErrBastionConnect string
  | ErrHandshake
  | PanicNilConfig

datatype parsed_key = Parsed signer | PassphraseMissing | ParseFailed

text \<open>
  One line of \<^verbatim>\<open>known_hosts\<close> as \<^verbatim>\<open>ssh.ParseKnownHosts\<close> reads it: \<open>None\<close> when the line
  does not parse, otherwise the host patterns of the line and its key.
\<close>

type_synonym known_hosts_line = "(string list \<times> pubkey) option"

text \<open>
  What the bastion code reads from outside: the file system (identity file, the user's
  \<^verbatim>\<open>known_hosts\<close>, \<open>None\<close> when it cannot be opened), the hash
  \<^verbatim>\<open>knownhosts.HashHostname\<close> returns for a host name (the library salts it afresh at
  each call; \<^verbatim>\<open>HostKey\<close> calls it once), the connection the \<^verbatim>\<open>connect\<close> callback
  returns, and the SSH server met during the handshake.
\<close>

record ssh_env =
  ReadFile :: "string \<Rightarrow> string option"
  ParsePrivateKey :: "string \<Rightarrow> parsed_key"
  ParsePrivateKeyWithPassphrase :: "string \<Rightarrow> string \<Rightarrow> signer option"
  KnownHostsFile :: "known_hosts_line list option"
  HashHostname :: "string \<Rightarrow> string"
  ConnectCallback :: "net_conn option"
  ServerHostKey :: pubkey
  ServerAcceptsAuth :: "string \<Rightarrow> auth_method list \<Rightarrow> bool"

datatype ssh_event = CallConnect | Handshake string

subsection \<open>Operations\<close>

text \<open>\<^verbatim>\<open>PublicKey\<close> (lines 263-277).\<close>

definition PublicKey :: "ssh_env \<Rightarrow> string \<Rightarrow> string \<Rightarrow> ssh_error + signer" where
  "PublicKey env path passphrase =
     (case ReadFile env path of
        None \<Rightarrow> Inl ErrReadFile
      | Some key \<Rightarrow>
          (case ParsePrivateKey env key of
             Parsed s \<Rightarrow> Inr s
           | PassphraseMissing \<Rightarrow>
               (case ParsePrivateKeyWithPassphrase env key passphrase of
                  None \<Rightarrow> Inl ErrParseKey
                | Some s \<Rightarrow> Inr s)
           | ParseFailed \<Rightarrow> Inl ErrParseKey))"

text \<open>
  \<^verbatim>\<open>HostKey\<close> (lines 279-308): the key of the first line that parses and lists the host,
  in plain form or as the hash just computed; nil when there is none or the file cannot be
  opened.
\<close>

fun hosts_match :: "string \<Rightarrow> string \<Rightarrow> string list \<Rightarrow> bool" where
  "hosts_match host hashhost [] = False"
| "hosts_match host hashhost (h # hs) =
     (if h = host \<or> h = hashhost then True else hosts_match host hashhost hs)"

fun HostKey_scan :: "string \<Rightarrow> string \<Rightarrow> known_hosts_line list \<Rightarrow> pubkey option" where
  "HostKey_scan host hashhost [] = None"
| "HostKey_scan host hashhost (None # ls) = HostKey_scan host hashhost ls"
| "HostKey_scan host hashhost (Some (hosts, key) # ls) =
     (if hosts_match host hashhost hosts then Some key else HostKey_scan host hashhost ls)"

definition HostKey :: "ssh_env \<Rightarrow> string \<Rightarrow> pubkey option" where
  "HostKey env host =
     (case KnownHostsFile env of
        None \<Rightarrow> None
      | Some ls \<Rightarrow> HostKey_scan host (HashHostname env host) ls)"

text \<open>
  \<^verbatim>\<open>net.JoinHostPort\<close>, and the handshake \<^verbatim>\<open>ssh.NewClientConn\<close>: it fails when the
  host-key callback refuses the key the server presents or when authentication fails.
\<close>

definition JoinHostPort :: "string \<Rightarrow> string \<Rightarrow> string" where
  "JoinHostPort h p = (if CHR '':'' \<in> set h then ''['' @ h @ '']:'' @ p else h @ '':'' @ p)"

definition NewClientConn :: "ssh_env \<Rightarrow> ClientConfig \<Rightarrow> ssh_client option" where
  "NewClientConn env cfg =
     (if check_host_key (HostKeyCallback cfg) (ServerHostKey env)
         \<and> ServerAcceptsAuth env (User cfg) (Auth cfg)
      then Some SSHClient else None)"

text \<open>
  \<^verbatim>\<open>reconnect\<close> (lines 388-403). The result is the bastion after the call, the error
  returned, and the network operations performed.
\<close>

definition reconnect ::
  "ssh_env \<Rightarrow> Bastion \<Rightarrow> net_conn option \<Rightarrow> Bastion \<times> ssh_error option \<times> ssh_event list" where
  "reconnect env bastion conn =
     (let (conn1, evs) = (case conn of
                            None \<Rightarrow> (ConnectCallback env, [CallConnect])
                          | Some c \<Rightarrow> (Some c, []))
      in case conn1 of
           None \<Rightarrow> (bastion, Some (ErrBastionConnect (Host bastion)), evs)
         | Some c \<Rightarrow>
             (let addr = JoinHostPort (Host bastion) (Port bastion);
                  evs1 = evs @ [Handshake addr]
              in case Config bastion of
                   None \<Rightarrow> (bastion, Some PanicNilConfig, evs1)
                 | Some cfg \<Rightarrow>
                     (case NewClientConn env cfg of
                        None \<Rightarrow> (bastion, Some ErrHandshake, evs1)
                      | Some cl \<Rightarrow> (bastion\<lparr>Client := Some cl\<rparr>, None, evs1))))"

text \<open>
  \<^verbatim>\<open>CreateBastion\<close> (lines 310-376). Two parts of its body are named: \<open>lookup_host\<close> is
  the name looked up in \<^verbatim>\<open>known_hosts\<close> (lines 329-332 and 338-341), and
  \<open>choose_callback\<close> is the choice of the host-key callback (lines 334-346).
\<close>

definition lookup_host :: "URL \<Rightarrow> string" where
  "lookup_host u =
     (let port = (if url_Port u = [] then ''22'' else url_Port u)
      in if port \<noteq> ''22'' then ''['' @ url_Hostname u @ '']:'' @ port else url_Hostname u)"

definition choose_callback :: "ssh_env \<Rightarrow> URL \<Rightarrow> host_key_callback" where
  "choose_callback env u =
     (let secure = ParseBool (Query_Get (url_Query u) ''secure'');
          callback = InsecureIgnoreHostKey
      in if secure then
           (case HostKey env (lookup_host u) of
              Some key \<Rightarrow> FixedHostKey key
            | None \<Rightarrow> callback)
         else callback)"

definition CreateBastion ::
  "ssh_env \<Rightarrow> URL \<Rightarrow> string \<Rightarrow> string \<Rightarrow> net_conn option
     \<Rightarrow> Bastion \<times> ssh_error option \<times> ssh_event list" where
  "CreateBastion env u passPhrase identity initial =
     (case (if length identity > 0
            then (case PublicKey env identity passPhrase of
                    Inl err \<Rightarrow> Inl (ErrIdentity identity err)
                  | Inr s \<Rightarrow> Inr [PublicKeys s])
            else Inr []) of
        Inl err \<Rightarrow> (Bastion_zero, Some err, [])
      | Inr auth1 \<Rightarrow>
          (let authMethods = auth1 @ (case User_Password (url_User u) of
                                       Some pw \<Rightarrow> [Password pw]
                                     | None \<Rightarrow> [])
           in if length authMethods = 0 then (Bastion_zero, Some ErrNoAuthMethods, [])
              else
                let port = (if url_Port u = [] then ''22'' else url_Port u);
                    config = \<lparr>User = User_Username (url_User u),
                              Auth = authMethods,
                              HostKeyCallback = choose_callback env u,
                              HostKeyAlgorithms = [''ssh-rsa'', ''ssh-dss'', ''ecdsa-sha2-nistp256'',
                                ''ecdsa-sha2-nistp384'', ''ecdsa-sha2-nistp521'', ''ssh-ed25519''],
                              Timeout = 5 * 1000000000\<rparr>;
                    bastion = \<lparr>Client = None, Config = Some config, Host = url_Hostname u,
                               Port = port, Path = url_Path u\<rparr>
                in reconnect env bastion initial))"

section \<open>pkg/virtualnetwork/ssh\_forwarder.go: timing and retry loops\<close>

text \<open>
  Go's \<^verbatim>\<open>time.Duration\<close> is an \<^verbatim>\<open>int64\<close> count of nanoseconds: a 64-bit word,
  compared as a signed number.
\<close>

type_synonym Duration = "64 word"

definition Millisecond :: Duration where
  "Millisecond = 1000000"

definition Second :: Duration where
  "Second = 1000000000"

text \<open>
  \<^verbatim>\<open>backOff\<close> (ssh\_forwarder.go, lines 210-220): a zero delay becomes 5 ms, any other
  delay is doubled (wrapping as \<^verbatim>\<open>int64\<close> does), and the result is capped at one second.
\<close>

definition backOff :: "Duration \<Rightarrow> Duration" where
  "backOff delay =
     (let delay1 = (if delay = 0 then 5 * Millisecond else delay * 2)
      in if Second <s delay1 then Second else delay1)"

text \<open>
  The functions of this file talk to the outside world: the context, the network stack, the
  SSH client, the Unix listener. Each such operation is recorded as an event together with
  its outcome, and the outcome is supplied by a \<open>world\<close>: for each operation a function from
  the history so far to what the operation returns next. \<open>ctx_done\<close> says whether
  \<^verbatim>\<open>ctx.Done()\<close> is ready, \<open>connect_ok\<close> whether \<^verbatim>\<open>connectFunc\<close> returns a nil error,
  \<open>timer_first\<close> whether a sleep ends by its timer, \<open>accept_conn\<close> what
  \<^verbatim>\<open>listener.Accept\<close> returns (\<open>None\<close> for an error; the connection knows whether it
  supports half-close), and \<open>dial_ok\<close>, \<open>alive_ok\<close> and \<open>reconnect_ok\<close> whether
  \<^verbatim>\<open>bastion.Client.Dial\<close>, the global request and \<^verbatim>\<open>bastion.Reconnect\<close> return a nil
  error.
\<close>

datatype conn = Conn (half_close: bool)

datatype channel = Channel

datatype error =
    ErrAccept string
  | ErrDial
  | ErrTunnel string
  | ErrSSHConnection string

datatype direction = SrcToDest | DestToSrc

datatype event =
    CtxDone bool
  | ConnectFunc bool
  | Sleep Duration bool
  | ListenerAccept bool
  | ClientDial string string bool
  | SendRequest string bool bool
  | Reconnect bool
  | ConClose
  | LogError error
  | GoForward direction

record world =
  ctx_done :: "event list \<Rightarrow> bool"
  connect_ok :: "event list \<Rightarrow> bool"
  timer_first :: "event list \<Rightarrow> bool"
  accept_conn :: "event list \<Rightarrow> conn option"
  dial_ok :: "event list \<Rightarrow> bool"
  alive_ok :: "event list \<Rightarrow> bool"
  reconnect_ok :: "event list \<Rightarrow> bool"

text \<open>
  \<^verbatim>\<open>sleep\<close> (lines 222-229): \<^verbatim>\<open>true\<close> when the timer fires, \<^verbatim>\<open>false\<close> when the context is
  done first.
\<close>

definition sleep :: "world \<Rightarrow> Duration \<Rightarrow> event list \<Rightarrow> bool \<times> event list" where
  "sleep w wait tr = (let r = timer_first w tr in (r, tr @ [Sleep wait r]))"

text \<open>
  \<^verbatim>\<open>initialConnection\<close> (lines 147-173). The pair \<open>(conn, err)\<close> is the two local variables
  of the Go function, both nil at first; \<^verbatim>\<open>connectFunc(nil)\<close> overwrites both.
\<close>

type_synonym conn_err = "conn option \<times> error option"

function initialConnection_loop ::
  "world \<Rightarrow> nat \<Rightarrow> Duration \<Rightarrow> conn_err \<Rightarrow> event list \<Rightarrow> conn_err \<times> event list" where
  "initialConnection_loop w i backoff ce tr =
     (if i < 60 then
        (if ctx_done w tr then (ce, tr @ [CtxDone True])
         else
           let tr1 = tr @ [CtxDone False] in
           if connect_ok w tr1 then ((Some (Conn True), None), tr1 @ [ConnectFunc True])
           else
             let tr2 = tr1 @ [ConnectFunc False];
                 (_, tr3) = sleep w backoff tr2
             in initialConnection_loop w (i + 1) (backOff backoff) (None, Some ErrDial) tr3)
      else (ce, tr))"
  by pat_completeness auto
termination
  by (relation "measure (\<lambda>(w, i, backoff, ce, tr). 60 - i)") auto

definition initialConnection :: "world \<Rightarrow> conn_err \<times> event list" where
  "initialConnection w = initialConnection_loop w 0 (100 * Millisecond) (None, None) []"

text \<open>
  \<^verbatim>\<open>connectForward\<close> (lines 60-87). The inner loop (lines 72-80) reconnects the bastion;
  it returns \<open>True\<close> when it leaves by \<^verbatim>\<open>break\<close> and \<open>False\<close> when the function returns
  the error from inside the loop.
\<close>

function reconnect_loop :: "world \<Rightarrow> nat \<Rightarrow> event list \<Rightarrow> bool \<times> event list" where
  "reconnect_loop w bastionRetries tr =
     (if reconnect_ok w tr then (True, tr @ [Reconnect True])
      else
        let tr1 = tr @ [Reconnect False] in
        if bastionRetries > 2 then (False, tr1)
        else
          let (slept, tr2) = sleep w (200 * Millisecond) tr1 in
          if \<not> slept then (False, tr2)
          else reconnect_loop w (bastionRetries + 1) tr2)"
  by pat_completeness auto
termination
  by (relation "measure (\<lambda>(w, bastionRetries, tr). 3 - bastionRetries)") auto

function connectForward_loop ::
  "world \<Rightarrow> Bastion \<Rightarrow> nat \<Rightarrow> event list \<Rightarrow> (error + channel) \<times> event list" where
  "connectForward_loop w bastion retries tr =
     (if dial_ok w tr then (Inr Channel, tr @ [ClientDial ''unix'' (Path bastion) True])
      else
        let tr1 = tr @ [ClientDial ''unix'' (Path bastion) False] in
        if retries > 2 then (Inl (ErrTunnel (Path bastion)), tr1)
        else
          let alive = alive_ok w tr1;
              tr2 = tr1 @ [SendRequest ''alive@gvproxy'' True alive];
              (connected, tr3) = (if \<not> alive then reconnect_loop w 1 tr2 else (True, tr2))
          in if \<not> connected then (Inl (ErrSSHConnection (Host bastion)), tr3)
             else
               let (slept, tr4) = sleep w (200 * Millisecond) tr3 in
               connectForward_loop w bastion ((if \<not> slept then 3 else retries) + 1) tr4)"
  by pat_completeness auto
termination
  by (relation "measure (\<lambda>(w, bastion, retries, tr). 4 - retries)") auto

definition connectForward :: "world \<Rightarrow> Bastion \<Rightarrow> event list \<Rightarrow> (error + channel) \<times> event list" where
  "connectForward w bastion tr = connectForward_loop w bastion 1 tr"

text \<open>
  \<^verbatim>\<open>acceptConnection\<close> (lines 175-200), which \<^verbatim>\<open>AcceptAndTunnel\<close> (lines 47-49) calls
  with the forwarder's listener, bastion and socket. \<^verbatim>\<open>errors.Wrapf\<close> of a nil error is
  nil, which is what the half-close branch returns, the accept having succeeded.
\<close>

definition acceptConnection ::
  "world \<Rightarrow> Bastion \<Rightarrow> string \<Rightarrow> event list \<Rightarrow> error option \<times> event list" where
  "acceptConnection w bastion socketPath tr =
     (case accept_conn w tr of
        None \<Rightarrow> (Some (ErrAccept socketPath), tr @ [ListenerAccept False])
      | Some con \<Rightarrow>
          (let tr1 = tr @ [ListenerAccept True] in
           if \<not> half_close con then (None, tr1 @ [ConClose])
           else
             case connectForward w bastion tr1 of
               (Inl err, tr2) \<Rightarrow> (None, tr2 @ [ConClose, LogError err])
             | (Inr dest, tr2) \<Rightarrow> (None, tr2 @ [GoForward SrcToDest, GoForward DestToSrc])))"

definition AcceptAndTunnel ::
  "world \<Rightarrow> Bastion \<Rightarrow> string \<Rightarrow> event list \<Rightarrow> error option \<times> event list" where
  "AcceptAndTunnel w bastion socketPath tr = acceptConnection w bastion socketPath tr"

text \<open>Reading a trace: the sleeps it contains, and the connection attempts.\<close>

fun sleep_durations :: "event list \<Rightarrow> Duration list" where
  "sleep_durations [] = []"
| "sleep_durations (Sleep d r # es) = d # sleep_durations es"
| "sleep_durations (e # es) = sleep_durations es"

fun is_attempt :: "event \<Rightarrow> bool" where
  "is_attempt (ConnectFunc ok) = True"
| "is_attempt e = False"

text \<open>
  \<^verbatim>\<open>forward\<close> (lines 202-208), one direction of a tunnel. The source is the list of
  results its \<^verbatim>\<open>Read\<close> calls return, each a buffer and what came with it (nil,
  \<^verbatim>\<open>io.EOF\<close> or another error); a \<^verbatim>\<open>Read\<close> after the last of them returns \<^verbatim>\<open>io.EOF\<close>. The
  destination answers each \<^verbatim>\<open>Write\<close> with the number of bytes it took and whether it failed.
  \<open>io_Copy\<close> is the loop of Go's \<^verbatim>\<open>io.Copy\<close>: a buffer that was read is written before
  the error that came with it is looked at, and a failed, short or invalid write ends the
  copy.
\<close>

type_synonym byte = "8 word"

datatype read_end = Continue | EOF | ReadError

type_synonym read_result = "byte list \<times> read_end"

datatype pump_event = Write "byte list" | CloseWrite | SrcClose

type_synonym writer = "pump_event list \<Rightarrow> byte list \<Rightarrow> nat \<times> bool"

fun io_Copy :: "writer \<Rightarrow> read_result list \<Rightarrow> pump_event list \<Rightarrow> pump_event list" where
  "io_Copy wr [] tr = tr"
| "io_Copy wr ((buf, er) # rs) tr =
     (if length buf > 0 then
        (let (nw, failed) = wr tr buf;
             tr1 = tr @ [Write (take nw buf)]
         in if length buf < nw then tr1
            else if failed then tr1
            else if length buf \<noteq> nw then tr1
            else if er \<noteq> Continue then tr1
            else io_Copy wr rs tr1)
      else if er \<noteq> Continue then tr
      else io_Copy wr rs tr)"

definition forward :: "writer \<Rightarrow> read_result list \<Rightarrow> pump_event list" where
  "forward dest src = io_Copy dest src [] @ [CloseWrite] @ [SrcClose]"

text \<open>Reading a pump: the bytes the source hands out before it ends.\<close>

fun source_bytes :: "read_result list \<Rightarrow> byte list" where
  "source_bytes [] = []"
| "source_bytes ((buf, er) # rs) = (if er \<noteq> Continue then buf else buf @ source_bytes rs)"

section \<open>Package forwarder: the UDP forwarder\<close>

text \<open>
  A \<^verbatim>\<open>tcpip.Address\<close> is a string of bytes (four for IPv4). \<^verbatim>\<open>Subnet.Contains\<close> of gVisor
  compares lengths and then every byte under the mask.
\<close>

unbundle bit_operations_syntax

type_synonym Address = "byte list"

record Subnet =
  subnet_address :: Address
  subnet_mask :: Address

fun masked_equal :: "Address \<Rightarrow> Address \<Rightarrow> Address \<Rightarrow> bool" where
  "masked_equal [] ms xs = True"
| "masked_equal (a # as) (m # ms) (x # xs) =
     (if a AND m \<noteq> x then False else masked_equal as ms xs)"
| "masked_equal (a # as) ms xs = False"

definition Contains :: "Subnet \<Rightarrow> Address \<Rightarrow> bool" where
  "Contains s a =
     (if length a \<noteq> length (subnet_address s) then False
      else masked_equal a (subnet_mask s) (subnet_address s))"

text \<open>
  Modelled from the spec: \<^verbatim>\<open>linkLocal()\<close> is a helper of package forwarder whose source
  file is not among the sources; the specification gives the subnet it stands for,
  169.254.0.0/16.
\<close>

definition linkLocal :: Subnet where
  "linkLocal = \<lparr>subnet_address = [169, 254, 0, 0], subnet_mask = [255, 255, 0, 0]\<rparr>"

text \<open>
  The handler \<^verbatim>\<open>UDP\<close> registers with the stack (part\_000, lines 17-41), run on one
  forwarder request. The request's ID gives the local address and port the stack saw, that
  is, the destination the guest chose. \<open>CreateEndpoint\<close> records the call to
  \<^verbatim>\<open>r.CreateEndpoint\<close> and its success, \<open>NewUDPProxy\<close> the proxy with the address and port
  its dial function gives to \<^verbatim>\<open>net.Dial("udp", ...)\<close>.
\<close>

record TransportEndpointID =
  LocalPort :: "16 word"
  LocalAddress :: Address
  RemotePort :: "16 word"
  RemoteAddress :: Address

datatype udp_event =
    CreateEndpoint bool
  | LogErrorf
  | NewUDPProxy Address "16 word"
  | GoRun

definition UDP_handler ::
  "(Address \<rightharpoonup> Address) \<Rightarrow> bool \<Rightarrow> TransportEndpointID \<Rightarrow> udp_event list" where
  "UDP_handler nat_table endpoint_ok r =
     (let localAddress = LocalAddress r in
      if Contains linkLocal localAddress then []
      else
        let localAddress1 = (case nat_table localAddress of
                               Some replaced \<Rightarrow> replaced
                             | None \<Rightarrow> localAddress)
        in if \<not> endpoint_ok then [CreateEndpoint False, LogErrorf]
           else [CreateEndpoint True, NewUDPProxy localAddress1 (LocalPort r), GoRun])"

fun dialed :: "udp_event list \<Rightarrow> (Address \<times> 16 word) list" where
  "dialed [] = []"
| "dialed (NewUDPProxy a p # es) = (a, p) # dialed es"
| "dialed (e # es) = dialed es"

section \<open>cmd/gvproxy/main.go\<close>

subsection \<open>Flags and the operating system\<close>

record flags =
  debug :: bool
  mtu :: int
  endpoints :: "string list"
  vpnkitSocket :: string
  qemuSocket :: string
  forwardSocket :: string
  forwardDest :: string
  forwardUser :: string
  forwardIdentify :: string
  sshPort :: int
  pidFile :: string

record uri =
  Scheme :: string
  uri_Path :: string

text \<open>
  What start-up asks of the system: \<^verbatim>\<open>url.Parse\<close> (\<open>None\<close> when it fails),
  \<^verbatim>\<open>os.Stat\<close> and \<^verbatim>\<open>os.Create\<close> (whether the error is nil), the write of the PID,
  \<^verbatim>\<open>virtualnetwork.New\<close> and \<^verbatim>\<open>transport.Listen\<close>.
\<close>

record os_env =
  url_Parse :: "string \<Rightarrow> uri option"
  Stat_ok :: "string \<Rightarrow> bool"
  Create_ok :: "string \<Rightarrow> bool"
  WriteString_ok :: bool
  New_ok :: bool
  Listen_ok :: "string \<Rightarrow> bool"

text \<open>
  Modelled from the spec: the constant \<^verbatim>\<open>transport.DefaultURL\<close> belongs to a package
  whose source is not among the sources; the specification gives the default listener.
\<close>

definition DefaultURL :: string where
  "DefaultURL = ''unix:///tmp/network.sock''"

datatype fatal =
    ErrInvalidListenQemu
  | ErrAlreadyExists string
  | ErrQemuAndVpnkit
  | ErrSSHPort
  | ErrIdentityFile string
  | ErrForwardTogether
  | ErrPidCreate
  | ErrPidWrite

text \<open>\<^verbatim>\<open>exitWithError\<close> (lines 367-370) logs and calls \<^verbatim>\<open>os.Exit(1)\<close>: the exit status.\<close>

definition exitWithError :: "fatal \<Rightarrow> int" where
  "exitWithError err = 1"

subsection \<open>Validation of the flags (lines 69-112)\<close>

definition check_qemuSocket :: "os_env \<Rightarrow> flags \<Rightarrow> fatal option" where
  "check_qemuSocket env f =
     (if length (qemuSocket f) > 0 then
        (case url_Parse env (qemuSocket f) of
           None \<Rightarrow> Some ErrInvalidListenQemu
         | Some u \<Rightarrow>
             if Stat_ok env (uri_Path u) \<and> Scheme u = ''unix''
             then Some (ErrAlreadyExists (uri_Path u)) else None)
      else None)"

text \<open>
  Lines 92-112: \<^verbatim>\<open>forwardCount\<close> counts the forward flags that are not empty; the identity
  file is looked at on the way. \<open>Inr\<close> carries the count when the lines let start-up go on.
\<close>

definition check_forward :: "os_env \<Rightarrow> flags \<Rightarrow> fatal + nat" where
  "check_forward env f =
     (let forwardCount = (if forwardDest f \<noteq> [] then 1 else 0) in
      if forwardIdentify f \<noteq> [] \<and> \<not> Stat_ok env (forwardIdentify f)
      then Inl (ErrIdentityFile (forwardIdentify f))
      else
        let forwardCount1 = (if forwardIdentify f \<noteq> [] then forwardCount + 1 else forwardCount);
            forwardCount2 = (if forwardUser f \<noteq> [] then forwardCount1 + 1 else forwardCount1);
            forwardCount3 = (if forwardSocket f \<noteq> [] then forwardCount2 + 1 else forwardCount2)
        in if forwardCount3 > 0 \<and> forwardCount3 < 4 then Inl ErrForwardTogether
           else Inr forwardCount3)"

definition validate :: "os_env \<Rightarrow> flags \<Rightarrow> fatal option" where
  "validate env f =
     (case check_qemuSocket env f of
        Some err \<Rightarrow> Some err
      | None \<Rightarrow>
          if vpnkitSocket f \<noteq> [] \<and> qemuSocket f \<noteq> [] then Some ErrQemuAndVpnkit
          else if sshPort f < 1024 \<or> sshPort f > 65535 then Some ErrSSHPort
          else (case check_forward env f of Inl err \<Rightarrow> Some err | Inr n \<Rightarrow> None))"

text \<open>The number of forward flags given, as the specification counts them.\<close>

definition forward_flags_given :: "flags \<Rightarrow> nat" where
  "forward_flags_given f =
     length (filter (\<lambda>v. v \<noteq> []) [forwardSocket f, forwardDest f, forwardUser f, forwardIdentify f])"

subsection \<open>Deferred calls and the PID file (lines 54-56 and 114-130)\<close>

text \<open>
  Go evaluates the arguments of a deferred call when the \<^verbatim>\<open>defer\<close> statement runs and
  calls the function when the surrounding function returns, last deferred first. A deferred
  \<^verbatim>\<open>os.Exit\<close> therefore carries the status it was given at the \<^verbatim>\<open>defer\<close> statement. When
  \<^verbatim>\<open>main\<close> returns with nothing exiting, the status is 0.
\<close>

datatype deferred = Defer_os_Exit int | Defer_Remove_pidFile

fun run_defers :: "deferred list \<Rightarrow> int" where
  "run_defers [] = 0"
| "run_defers (Defer_os_Exit code # ds) = code"
| "run_defers (Defer_Remove_pidFile # ds) = run_defers ds"

definition create_pidFile :: "os_env \<Rightarrow> flags \<Rightarrow> deferred list \<Rightarrow> fatal + deferred list" where
  "create_pidFile env f defers =
     (if length (pidFile f) > 0 then
        (if \<not> Create_ok env (pidFile f) then Inl ErrPidCreate
         else if \<not> WriteString_ok env then Inl ErrPidWrite
         else Inr (Defer_Remove_pidFile # defers))
      else Inr defers)"

subsection \<open>The tasks \<^verbatim>\<open>run\<close> starts (lines 224-354)\<close>

datatype task =
    ListenerClose string
  | HttpServe string
  | DebugLog
  | VpnkitAcceptLoop
  | QemuClose
  | QemuAcceptOnce
  | SSHForward

datatype run_error = ErrNew | ErrCannotListen string | ErrListen string

fun run_endpoints :: "os_env \<Rightarrow> string list \<Rightarrow> task list \<Rightarrow> run_error option \<times> task list" where
  "run_endpoints env [] ts = (None, ts)"
| "run_endpoints env (endpoint # es) ts =
     (if \<not> Listen_ok env endpoint then (Some (ErrCannotListen endpoint), ts)
      else run_endpoints env es (ts @ [ListenerClose endpoint, HttpServe endpoint]))"

definition run :: "os_env \<Rightarrow> flags \<Rightarrow> string list \<Rightarrow> run_error option \<times> task list" where
  "run env f eps =
     (if \<not> New_ok env then (Some ErrNew, [])
      else
        case run_endpoints env eps [] of
          (Some err, ts) \<Rightarrow> (Some err, ts)
        | (None, ts) \<Rightarrow>
            (let ts1 = (if debug f then ts @ [DebugLog] else ts) in
             if vpnkitSocket f \<noteq> [] \<and> \<not> Listen_ok env (vpnkitSocket f)
             then (Some (ErrListen (vpnkitSocket f)), ts1)
             else
               let ts2 = (if vpnkitSocket f \<noteq> [] then ts1 @ [VpnkitAcceptLoop] else ts1) in
               if qemuSocket f \<noteq> [] \<and> \<not> Listen_ok env (qemuSocket f)
               then (Some (ErrListen (qemuSocket f)), ts2)
               else
                 let ts3 = (if qemuSocket f \<noteq> [] then ts2 @ [QemuClose, QemuAcceptOnce] else ts2);
                     ts4 = (if forwardSocket f \<noteq> [] then ts3 @ [SSHForward] else ts3)
                 in (None, ts4)))"

text \<open>
  The task of lines 308-315: one call of \<^verbatim>\<open>qemuListener.Accept\<close>, then, if it gave a
  connection, \<^verbatim>\<open>vn.AcceptQemu\<close> on it, whose result is the task's result. The two
  parameters say whether the accept succeeds and whether \<^verbatim>\<open>AcceptQemu\<close> returns nil.
\<close>

datatype qemu_event = QemuListenerAccept bool | AcceptQemu

datatype task_error = ErrQemuAccept | ErrAcceptQemu

definition qemu_accept_task :: "bool \<Rightarrow> bool \<Rightarrow> task_error option \<times> qemu_event list" where
  "qemu_accept_task accept_ok link_ok =
     (if \<not> accept_ok then (Some ErrQemuAccept, [QemuListenerAccept False])
      else ((if link_ok then None else Some ErrAcceptQemu), [QemuListenerAccept True, AcceptQemu]))"

text \<open>
  How often a task calls \<^verbatim>\<open>Accept\<close> on the qemu listener: the listener is a variable of
  the block at lines 294-316, named by the two tasks started there; \<open>QemuClose\<close> only
  closes it.
\<close>

fun qemu_accept_events :: "bool \<Rightarrow> bool \<Rightarrow> task \<Rightarrow> qemu_event list" where
  "qemu_accept_events accept_ok link_ok QemuAcceptOnce = snd (qemu_accept_task accept_ok link_ok)"
| "qemu_accept_events accept_ok link_ok t = []"

fun is_qemu_accept :: "qemu_event \<Rightarrow> bool" where
  "is_qemu_accept (QemuListenerAccept ok) = True"
| "is_qemu_accept AcceptQemu = False"

definition qemu_accept_calls :: "bool \<Rightarrow> bool \<Rightarrow> task list \<Rightarrow> nat" where
  "qemu_accept_calls accept_ok link_ok ts =
     length (filter is_qemu_accept (concat (map (qemu_accept_events accept_ok link_ok) ts)))"

subsection \<open>\<^verbatim>\<open>main\<close> (lines 41-204)\<close>

text \<open>
  \<^verbatim>\<open>groupErrs.Wait()\<close> returns when every task of the group has returned, with the first
  error a task returned. The task of lines 189-198 returns \<^verbatim>\<open>signal caught\<close> on a signal
  and nil once the group's context is done, which an error of another task brings about.
  What comes first after start-up is a parameter; \<open>Nothing\<close> is a run in which neither a
  signal nor a failure comes, so that \<^verbatim>\<open>Wait\<close> does not return. That the other tasks return
  once the context is done is taken for granted.
\<close>

datatype happening = Signal | TaskFailure task_error | Nothing

datatype group_error = SignalCaught | RunFailed run_error | TaskFailed task_error

definition group_Wait :: "run_error option \<Rightarrow> happening \<Rightarrow> group_error option option" where
  "group_Wait run_result h =
     (case run_result of
        Some err \<Rightarrow> Some (Some (RunFailed err))
      | None \<Rightarrow>
          (case h of
             Signal \<Rightarrow> Some (Some SignalCaught)
           | TaskFailure err \<Rightarrow> Some (Some (TaskFailed err))
           | Nothing \<Rightarrow> None))"

text \<open>
  The result of \<open>main\<close> is \<open>None\<close> when the process does not exit, otherwise the exit
  status together with the value the variable \<^verbatim>\<open>exitCode\<close> has at that moment.
\<close>

definition main :: "os_env \<Rightarrow> flags \<Rightarrow> happening \<Rightarrow> (int \<times> int) option" where
  "main env f h =
     (let exitCode = 0;
          defers = [Defer_os_Exit exitCode];
          eps = (if length (endpoints f) = 0 then [DefaultURL] else endpoints f)
      in case validate env f of
           Some err \<Rightarrow> Some (exitWithError err, exitCode)
         | None \<Rightarrow>
             (case create_pidFile env f defers of
                Inl err \<Rightarrow> Some (exitWithError err, exitCode)
              | Inr defers1 \<Rightarrow>
                  (case group_Wait (fst (run env f eps)) h of
                     None \<Rightarrow> None
                   | Some err \<Rightarrow>
                       (let exitCode1 = (if err \<noteq> None then 1 else exitCode)
                        in Some (run_defers defers1, exitCode1)))))"

section \<open>The specification's reading of the reconnection\<close>

text \<open>
  From the specification: after a failed probe the bastion is reconnected, up to 3 attempts
  with a 200 ms sleep between them, and cancellation aborts. These are the ways that can go:
  whether the bastion is connected at the end, and the attempts and sleeps made.
\<close>

definition spec_reconnect_outcomes :: "(bool \<times> event list) list" where
  "spec_reconnect_outcomes =
     [(True, [Reconnect True]),
      (True, [Reconnect False, Sleep (200 * Millisecond) True, Reconnect True]),
      (True, [Reconnect False, Sleep (200 * Millisecond) True,
              Reconnect False, Sleep (200 * Millisecond) True, Reconnect True]),
      (False, [Reconnect False, Sleep (200 * Millisecond) False]),
      (False, [Reconnect False, Sleep (200 * Millisecond) True,
               Reconnect False, Sleep (200 * Millisecond) False]),
      (False, [Reconnect False, Sleep (200 * Millisecond) True,
               Reconnect False, Sleep (200 * Millisecond) True, Reconnect False])]"

section \<open>Concrete inputs\<close>

text \<open>
  A forwarder whose guest has gone away: every accept on the local socket gives a
  connection, and every operation on the bastion fails.
\<close>

definition world_down :: world where
  "world_down = \<lparr>ctx_done = (\<lambda>tr. False), connect_ok = (\<lambda>tr. False), timer_first = (\<lambda>tr. True),
     accept_conn = (\<lambda>tr. Some (Conn True)), dial_ok = (\<lambda>tr. False), alive_ok = (\<lambda>tr. False),
     reconnect_ok = (\<lambda>tr. False)\<rparr>"

definition bastion_guest :: Bastion where
  "bastion_guest = \<lparr>Client = Some SSHClient, Config = None, Host = ''192.168.127.2'', Port = ''22'',
     Path = ''/run/podman.sock''\<rparr>"

text \<open>
  A destination that takes every write in full, and a source that hands out two bytes,
  then one more byte together with end of stream.
\<close>

definition full_writer :: writer where
  "full_writer tr buf = (length buf, False)"

definition src_two_reads :: "read_result list" where
  "src_two_reads = [([104, 105], Continue), ([10], EOF), ([33], Continue)]"

text \<open>
  The NAT table of the default configuration, a flow to the virtual host address, and a
  flow to a link-local address.
\<close>

definition nat_default :: "Address \<rightharpoonup> Address" where
  "nat_default = [[192, 168, 127, 254] \<mapsto> [127, 0, 0, 1]]"

definition flow_to_host :: TransportEndpointID where
  "flow_to_host = \<lparr>LocalPort = 9000, LocalAddress = [192, 168, 127, 254],
     RemotePort = 40000, RemoteAddress = [192, 168, 127, 2]\<rparr>"

definition flow_link_local :: TransportEndpointID where
  "flow_link_local = \<lparr>LocalPort = 80, LocalAddress = [169, 254, 169, 254],
     RemotePort = 40001, RemoteAddress = [192, 168, 127, 2]\<rparr>"

text \<open>
  A guest reached over SSH with a key file that parses, and a server that presents key 2.
  In the first environment \<^verbatim>\<open>known_hosts\<close> lists the guest with key 1; in the second it does
  not list the guest. The URL asks for \<^verbatim>\<open>secure=true\<close> and carries no password.
\<close>

definition env_known_host :: ssh_env where
  "env_known_host = \<lparr>
     ReadFile = (\<lambda>path. if path = ''/home/u/.ssh/id'' then Some ''key material'' else None),
     ParsePrivateKey = (\<lambda>key. Parsed (Signer 1)),
     ParsePrivateKeyWithPassphrase = (\<lambda>key passphrase. None),
     KnownHostsFile = Some [None, Some ([''10.0.0.1''], PubKey 7),
                            Some ([''192.168.127.2'', ''guest''], PubKey 1)],
     HashHostname = (\<lambda>host. ''|1|salt|'' @ host),
     ConnectCallback = Some NetConn,
     ServerHostKey = PubKey 2,
     ServerAcceptsAuth = (\<lambda>user auth. True)\<rparr>"

definition env_unknown_host :: ssh_env where
  "env_unknown_host = env_known_host\<lparr>KnownHostsFile := Some [None, Some ([''10.0.0.1''], PubKey 7)]\<rparr>"

text \<open>
  The same guest, listed on two lines of \<^verbatim>\<open>known_hosts\<close>: first with key 1, then with
  key 2, the key the server presents.
\<close>

definition env_listed_twice :: ssh_env where
  "env_listed_twice = env_known_host\<lparr>KnownHostsFile :=
     Some [None, Some ([''10.0.0.1''], PubKey 7),
           Some ([''192.168.127.2'', ''guest''], PubKey 1),
           Some ([''192.168.127.2''], PubKey 2)]\<rparr>"

definition url_secure :: URL where
  "url_secure = \<lparr>url_Hostname = ''192.168.127.2'', url_Port = ''22'',
     url_Path = ''/run/podman.sock'',
     url_User = Some \<lparr>username = ''core'', password = None\<rparr>,
     url_Query = [(''secure'', ''true'')]\<rparr>"

text \<open>
  The command line with every flag at its default, with all four forward flags, with one
  forward flag, and with a qemu socket; a system on which nothing asked about exists yet
  and everything else succeeds, and one on which no listener can be opened.
\<close>

definition flags_default :: flags where
  "flags_default = \<lparr>debug = False, mtu = 1500, endpoints = [], vpnkitSocket = [],
     qemuSocket = [], forwardSocket = [], forwardDest = [], forwardUser = [],
     forwardIdentify = [], sshPort = 2222, pidFile = []\<rparr>"

definition flags_four :: flags where
  "flags_four = flags_default\<lparr>forwardSocket := ''/tmp/podman.sock'',
     forwardDest := ''/run/podman.sock'', forwardUser := ''core'',
     forwardIdentify := ''/missing/id''\<rparr>"

definition flags_user_only :: flags where
  "flags_user_only = flags_default\<lparr>forwardUser := ''core''\<rparr>"

definition flags_qemu :: flags where
  "flags_qemu = flags_default\<lparr>qemuSocket := ''unix:///tmp/qemu.sock''\<rparr>"

definition env_ok :: os_env where
  "env_ok = \<lparr>url_Parse = (\<lambda>s. Some \<lparr>Scheme = ''unix'', uri_Path = ''/tmp/qemu.sock''\<rparr>),
     Stat_ok = (\<lambda>path. False), Create_ok = (\<lambda>path. True), WriteString_ok = True,
     New_ok = True, Listen_ok = (\<lambda>endpoint. True)\<rparr>"

definition env_listen_fails :: os_env where
  "env_listen_fails = env_ok\<lparr>Listen_ok := (\<lambda>endpoint. False)\<rparr>"

text \<open>A guest whose sshd answers at the sixth attempt.\<close>

definition world_sshd_late :: world where
  "world_sshd_late = \<lparr>ctx_done = (\<lambda>tr. False), connect_ok = (\<lambda>tr. 15 \<le> length tr),
     timer_first = (\<lambda>tr. True), accept_conn = (\<lambda>tr. None), dial_ok = (\<lambda>tr. False),
     alive_ok = (\<lambda>tr. False), reconnect_ok = (\<lambda>tr. False)\<rparr>"

section \<open>Properties of the retry loops\<close>

declare initialConnection_loop.simps [simp del]
declare reconnect_loop.simps [simp del]
declare connectForward_loop.simps [simp del]

subsection \<open>The backoff sequence\<close>

lemma backOff_steps:
  "backOff (100 * Millisecond) = 200 * Millisecond"
  "backOff (200 * Millisecond) = 400 * Millisecond"
  "backOff (400 * Millisecond) = 800 * Millisecond"
  "backOff (800 * Millisecond) = Second"
  "backOff Second = Second"
  by (simp_all add: backOff_def Millisecond_def Second_def word_sless_alt)

lemma backOff_Second_iter: "(backOff ^^ k) Second = Second"
  by (induction k) (simp_all add: backOff_steps)

lemma backOff_four: "(backOff ^^ 4) (100 * Millisecond) = Second"
proof -
  have "(4::nat) = Suc (Suc (Suc (Suc 0)))" by simp
  then show ?thesis by (simp only: funpow.simps o_apply id_apply funpow_0 backOff_steps)
qed

lemma backOff_iter:
  "unat ((backOff ^^ k) (100 * Millisecond)) = min (100000000 * 2 ^ k) 1000000000"
proof (cases "k < 4")
  case True
  then consider "k = 0" | "k = Suc 0" | "k = Suc (Suc 0)" | "k = Suc (Suc (Suc 0))" by linarith
  then show ?thesis
    by cases ((simp add: backOff_steps)?, simp add: Millisecond_def Second_def)+
next
  case False
  then obtain j where k: "k = j + 4" by (metis le_add_diff_inverse2 not_less)
  have "(backOff ^^ k) (100 * Millisecond) = (backOff ^^ j) ((backOff ^^ 4) (100 * Millisecond))"
    unfolding k by (simp only: funpow_add o_apply)
  then have "(backOff ^^ k) (100 * Millisecond) = Second"
    by (simp only: backOff_four backOff_Second_iter)
  moreover have "(1000000000::nat) \<le> 100000000 * 2 ^ k"
  proof -
    have "(1::nat) \<le> 2 ^ j" by simp
    moreover have "(2::nat) ^ k = 16 * 2 ^ j" unfolding k by (simp add: power_add)
    ultimately show ?thesis by linarith
  qed
  ultimately show ?thesis by (simp add: Second_def)
qed

subsection \<open>\<^verbatim>\<open>initialConnection\<close>\<close>

lemma sleep_durations_append [simp]:
  "sleep_durations (xs @ ys) = sleep_durations xs @ sleep_durations ys"
  by (induction xs rule: sleep_durations.induct) simp_all

text \<open>
  What one run of the loop adds to the trace, from iteration \<open>i\<close> with delay \<open>b\<close> on:
  at most \<open>60 - i\<close> attempts, one sleep after each failed attempt, the delays being the
  iterates of \<open>backOff\<close>, and nothing after a success or a cancellation.
\<close>

lemma initialConnection_loop_trace:
  "\<exists>evs. snd (initialConnection_loop w i b ce tr) = tr @ evs
     \<and> length (filter is_attempt evs) \<le> 60 - i
     \<and> sleep_durations evs = map (\<lambda>k. (backOff ^^ k) b) [0..<length (sleep_durations evs)]
     \<and> length (sleep_durations evs) = count_list evs (ConnectFunc False)
     \<and> ConnectFunc True \<notin> set (butlast evs) \<and> CtxDone True \<notin> set (butlast evs)
     \<and> (fst ce = None \<longrightarrow>
          (fst (fst (initialConnection_loop w i b ce tr)) \<noteq> None) = (ConnectFunc True \<in> set evs))"
proof (induction w i b ce tr rule: initialConnection_loop.induct)
  case (1 w i backoff ce tr)
  show ?case
  proof (cases "i < 60 \<and> \<not> ctx_done w tr \<and> \<not> connect_ok w (tr @ [CtxDone False])")
    case False
    then show ?thesis
      by (subst (1 2) initialConnection_loop.simps) (auto simp: Let_def)
  next
    case True
    let ?tr2 = "tr @ [CtxDone False, ConnectFunc False]"
    let ?r = "timer_first w ?tr2"
    let ?tr3 = "?tr2 @ [Sleep backoff ?r]"
    let ?next = "initialConnection_loop w (i + 1) (backOff backoff) (None, Some ErrDial) ?tr3"
    have step: "initialConnection_loop w i backoff ce tr = ?next"
      using True by (subst initialConnection_loop.simps) (simp add: Let_def sleep_def)
    from True "1.IH" [of "tr @ [CtxDone False]" "tr @ [CtxDone False] @ [ConnectFunc False]"
        "sleep w backoff ?tr2" "?r" "?tr3"]
    obtain evs where evs: "snd ?next = ?tr3 @ evs"
      "length (filter is_attempt evs) \<le> 60 - (i + 1)"
      "sleep_durations evs =
         map (\<lambda>k. (backOff ^^ k) (backOff backoff)) [0..<length (sleep_durations evs)]"
      "length (sleep_durations evs) = count_list evs (ConnectFunc False)"
      "ConnectFunc True \<notin> set (butlast evs)" "CtxDone True \<notin> set (butlast evs)"
      "(fst (fst ?next) \<noteq> None) = (ConnectFunc True \<in> set evs)"
      by (auto simp: sleep_def Let_def)
    let ?evs = "[CtxDone False, ConnectFunc False, Sleep backoff ?r] @ evs"
    have "snd (initialConnection_loop w i backoff ce tr) = tr @ ?evs"
      using step evs(1) by simp
    moreover have "length (filter is_attempt ?evs) \<le> 60 - i"
      using evs(2) True by auto
    moreover have "sleep_durations ?evs =
        map (\<lambda>k. (backOff ^^ k) backoff) [0..<length (sleep_durations ?evs)]"
    proof -
      have "sleep_durations ?evs = backoff # sleep_durations evs" by simp
      also have "\<dots> = backoff #
          map (\<lambda>k. (backOff ^^ k) (backOff backoff)) [0..<length (sleep_durations evs)]"
        using evs(3) by simp
      also have "\<dots> = map (\<lambda>k. (backOff ^^ k) backoff) [0..<Suc (length (sleep_durations evs))]"
        by (simp add: map_upt_Suc funpow_swap1 del: upt_Suc)
      finally show ?thesis by simp
    qed
    moreover have "length (sleep_durations ?evs) = count_list ?evs (ConnectFunc False)"
      using evs(4) by simp
    moreover have "ConnectFunc True \<notin> set (butlast ?evs)" "CtxDone True \<notin> set (butlast ?evs)"
      using evs(5,6) by (auto simp: butlast_append)
    moreover have "(fst (fst (initialConnection_loop w i backoff ce tr)) \<noteq> None)
        = (ConnectFunc True \<in> set ?evs)"
      using step evs(7) by simp
    ultimately show ?thesis by blast
  qed
qed

text \<open>
  C4. \<^verbatim>\<open>initialConnection\<close> calls \<^verbatim>\<open>connectFunc\<close> at most 60 times. It sleeps once after
  each failed attempt; the sleep after attempt number \<open>k\<close> (counted from 0) lasts
  \<open>min (100 ms * 2^k) (1 s)\<close> in nanoseconds: 100 ms first, doubled each time, never more
  than one second. A successful attempt and a context found cancelled are each the last
  thing the function does, and it returns a connection exactly when an attempt succeeded.
\<close>

theorem initialConnection_retries:
  "length (filter is_attempt (snd (initialConnection w))) \<le> 60
   \<and> map unat (sleep_durations (snd (initialConnection w)))
       = map (\<lambda>k. min (100000000 * 2 ^ k) 1000000000)
           [0..<length (sleep_durations (snd (initialConnection w)))]
   \<and> length (sleep_durations (snd (initialConnection w)))
       = count_list (snd (initialConnection w)) (ConnectFunc False)
   \<and> ConnectFunc True \<notin> set (butlast (snd (initialConnection w)))
   \<and> CtxDone True \<notin> set (butlast (snd (initialConnection w)))
   \<and> (fst (fst (initialConnection w)) \<noteq> None) = (ConnectFunc True \<in> set (snd (initialConnection w)))"
proof -
  obtain evs where evs: "snd (initialConnection w) = evs"
    "length (filter is_attempt evs) \<le> 60"
    "sleep_durations evs
       = map (\<lambda>k. (backOff ^^ k) (100 * Millisecond)) [0..<length (sleep_durations evs)]"
    "length (sleep_durations evs) = count_list evs (ConnectFunc False)"
    "ConnectFunc True \<notin> set (butlast evs)" "CtxDone True \<notin> set (butlast evs)"
    "(fst (fst (initialConnection w)) \<noteq> None) = (ConnectFunc True \<in> set evs)"
    using initialConnection_loop_trace [of w 0 "100 * Millisecond" "(None, None)" "[]"]
    unfolding initialConnection_def by auto
  have "map unat (sleep_durations evs)
      = map (\<lambda>k. unat ((backOff ^^ k) (100 * Millisecond))) [0..<length (sleep_durations evs)]"
    by (subst evs(3)) (simp add: comp_def)
  then have "map unat (sleep_durations evs)
      = map (\<lambda>k. min (100000000 * 2 ^ k) 1000000000) [0..<length (sleep_durations evs)]"
    by (simp only: backOff_iter)
  with evs show ?thesis by simp
qed

theorem initialConnection_retries_witness:
  "map unat (sleep_durations (snd (initialConnection world_sshd_late)))
     = [100000000, 200000000, 400000000, 800000000, 1000000000]
   \<and> length (filter is_attempt (snd (initialConnection world_sshd_late))) = 6
   \<and> fst (initialConnection world_sshd_late) = (Some (Conn True), None)"
  using initialConnection_retries [of world_sshd_late]
  by (simp add: initialConnection_def initialConnection_loop.simps sleep_def Let_def
      world_sshd_late_def backOff_steps Millisecond_def Second_def)

subsection \<open>\<^verbatim>\<open>connectForward\<close> and \<^verbatim>\<open>acceptConnection\<close>\<close>

lemma reconnect_loop_last:
  "reconnect_loop w 3 tr =
     (if reconnect_ok w tr then (True, tr @ [Reconnect True]) else (False, tr @ [Reconnect False]))"
  by (subst reconnect_loop.simps) (simp add: Let_def)

lemma reconnect_loop_step:
  "n \<le> 2 \<Longrightarrow> reconnect_loop w n tr =
     (if reconnect_ok w tr then (True, tr @ [Reconnect True])
      else if timer_first w (tr @ [Reconnect False])
        then reconnect_loop w (n + 1) (tr @ [Reconnect False, Sleep (200 * Millisecond) True])
        else (False, tr @ [Reconnect False, Sleep (200 * Millisecond) False]))"
  by (subst reconnect_loop.simps) (simp add: Let_def sleep_def)

lemma reconnect_loop_outcomes:
  "\<exists>ok evs. reconnect_loop w 1 tr = (ok, tr @ evs) \<and> (ok, evs) \<in> set spec_reconnect_outcomes"
proof -
  let ?S = "Sleep (200 * Millisecond) True"
  let ?F = "Reconnect False"
  have third: "\<exists>ok evs. reconnect_loop w 3 (tr @ [?F, ?S, ?F, ?S]) = (ok, tr @ evs)
      \<and> (ok, evs) \<in> set spec_reconnect_outcomes"
    by (auto simp: reconnect_loop_last spec_reconnect_outcomes_def Let_def)
  have second: "\<exists>ok evs. reconnect_loop w 2 (tr @ [?F, ?S]) = (ok, tr @ evs)
      \<and> (ok, evs) \<in> set spec_reconnect_outcomes"
  proof (cases "\<not> reconnect_ok w (tr @ [?F, ?S]) \<and> timer_first w (tr @ [?F, ?S, ?F])")
    case True
    then have "reconnect_loop w 2 (tr @ [?F, ?S]) = reconnect_loop w 3 (tr @ [?F, ?S, ?F, ?S])"
      by (subst reconnect_loop_step) (simp_all add: numeral_2_eq_2 numeral_3_eq_3)
    with third show ?thesis by simp
  next
    case False
    then show ?thesis
      by (auto simp: reconnect_loop_step spec_reconnect_outcomes_def Let_def)
  qed
  show ?thesis
  proof (cases "\<not> reconnect_ok w tr \<and> timer_first w (tr @ [?F])")
    case True
    then have "reconnect_loop w 1 tr = reconnect_loop w 2 (tr @ [?F, ?S])"
      by (subst reconnect_loop_step) (simp_all add: numeral_2_eq_2 numeral_3_eq_3)
    with second show ?thesis by simp
  next
    case False
    then show ?thesis
      by (auto simp: reconnect_loop_step spec_reconnect_outcomes_def Let_def)
  qed
qed


lemma connectForward_loop_extends:
  "\<exists>evs. snd (connectForward_loop w b retries tr) = tr @ evs"
proof (induction w b retries tr rule: connectForward_loop.induct)
  case (1 w bastion retries tr)
  let ?tr1 = "tr @ [ClientDial ''unix'' (Path bastion) False]"
  let ?tr2 = "?tr1 @ [SendRequest ''alive@gvproxy'' True (alive_ok w ?tr1)]"
  let ?rc = "if \<not> alive_ok w ?tr1 then reconnect_loop w 1 ?tr2 else (True, ?tr2)"
  obtain ok evs where rc: "?rc = (ok, ?tr2 @ evs)"
    using reconnect_loop_outcomes [of w ?tr2] by (cases "alive_ok w ?tr1") auto
  show ?case
  proof (cases "\<not> dial_ok w tr \<and> retries \<le> 2 \<and> ok")
    case False
    then show ?thesis using rc
      by (subst connectForward_loop.simps) (auto simp: Let_def split: prod.splits)
  next
    case True
    let ?tr3 = "?tr2 @ evs"
    let ?slept = "timer_first w ?tr3"
    let ?tr4 = "?tr3 @ [Sleep (200 * Millisecond) ?slept]"
    let ?r = "(if \<not> ?slept then 3 else retries) + 1"
    have step: "connectForward_loop w bastion retries tr = connectForward_loop w bastion ?r ?tr4"
      using True rc by (subst connectForward_loop.simps) (simp add: Let_def sleep_def)
    have "\<exists>evs'. snd (connectForward_loop w bastion ?r ?tr4) = ?tr4 @ evs'"
      using True rc
      by (intro "1.IH" [of ?tr1 "alive_ok w ?tr1" ?tr2 ?rc ok ?tr3 "sleep w (200 * Millisecond) ?tr3" ?slept ?tr4])
         (auto simp: sleep_def Let_def)
    then show ?thesis using step by auto
  qed
qed


lemma connectForward_first_failure:
  fixes w :: world and b :: Bastion and tr :: "event list"
  assumes "\<not> dial_ok w tr"
  defines "tr1 \<equiv> tr @ [ClientDial ''unix'' (Path b) False]"
  defines "tr2 \<equiv> tr1 @ [SendRequest ''alive@gvproxy'' True (alive_ok w tr1)]"
  shows "\<exists>ok evs rest. snd (connectForward w b tr) = tr2 @ evs @ rest
           \<and> (alive_ok w tr1 \<longrightarrow> ok \<and> evs = [])
           \<and> (\<not> alive_ok w tr1 \<longrightarrow> (ok, evs) \<in> set spec_reconnect_outcomes)
           \<and> (\<not> ok \<longrightarrow> rest = [] \<and> fst (connectForward w b tr) = Inl (ErrSSHConnection (Host b)))"
proof -
  let ?rc = "if \<not> alive_ok w tr1 then reconnect_loop w 1 tr2 else (True, tr2)"
  obtain ok evs where rc: "?rc = (ok, tr2 @ evs)"
    and sh: "alive_ok w tr1 \<longrightarrow> ok \<and> evs = []"
      "\<not> alive_ok w tr1 \<longrightarrow> (ok, evs) \<in> set spec_reconnect_outcomes"
    using reconnect_loop_outcomes [of w tr2] by (cases "alive_ok w tr1") auto
  show ?thesis
  proof (cases ok)
    case False
    then have "connectForward w b tr = (Inl (ErrSSHConnection (Host b)), tr2 @ evs)"
      using assms(1) rc unfolding connectForward_def tr1_def tr2_def
      by (subst connectForward_loop.simps) (simp add: Let_def)
    with False sh show ?thesis by (intro exI [of _ ok] exI [of _ evs] exI [of _ "[]"]) simp
  next
    case True
    let ?tr3 = "tr2 @ evs"
    let ?slept = "timer_first w ?tr3"
    let ?tr4 = "?tr3 @ [Sleep (200 * Millisecond) ?slept]"
    let ?r = "(if \<not> ?slept then 3 else 1) + 1"
    have "connectForward w b tr = connectForward_loop w b ?r ?tr4"
      using assms(1) rc True unfolding connectForward_def tr1_def tr2_def
      by (subst connectForward_loop.simps) (simp add: Let_def sleep_def)
    moreover obtain evs' where "snd (connectForward_loop w b ?r ?tr4) = ?tr4 @ evs'"
      using connectForward_loop_extends by blast
    ultimately have "snd (connectForward w b tr) = tr2 @ evs @ ([Sleep (200 * Millisecond) ?slept] @ evs')"
      by simp
    with True sh show ?thesis by blast
  qed
qed

text \<open>
  C3. Take an accepted connection that supports half-close. \<^verbatim>\<open>AcceptAndTunnel\<close> never
  returns an error for it. If the first attempt to open the channel fails, the next thing
  done is the global request \<^verbatim>\<open>alive@gvproxy\<close>. If that probe fails too, the bastion is
  reconnected in one of the ways the specification allows: at most three attempts, a
  200 ms sleep between two attempts, and an end in failure when a sleep is cut short by the
  context or the third attempt fails; after such a failure the connection is closed and the
  error logged. Whenever \<^verbatim>\<open>connectForward\<close> fails, the accepted connection is closed, the
  error is logged, and the result is nil.
\<close>

theorem acceptConnection_channel_failure:
  fixes w :: world and b :: Bastion and tr :: "event list"
  assumes "accept_conn w tr = Some con" and "half_close con"
  defines "tr1 \<equiv> tr @ [ListenerAccept True]"
  defines "tr2 \<equiv> tr1 @ [ClientDial ''unix'' (Path b) False]"
  defines "tr3 \<equiv> tr2 @ [SendRequest ''alive@gvproxy'' True (alive_ok w tr2)]"
  shows "fst (AcceptAndTunnel w b p tr) = None
    \<and> (\<not> dial_ok w tr1 \<longrightarrow>
         (\<exists>ok evs rest. snd (AcceptAndTunnel w b p tr) = tr3 @ evs @ rest
            \<and> (alive_ok w tr2 \<longrightarrow> ok \<and> evs = [])
            \<and> (\<not> alive_ok w tr2 \<longrightarrow> (ok, evs) \<in> set spec_reconnect_outcomes)
            \<and> (\<not> ok \<longrightarrow> rest = [ConClose, LogError (ErrSSHConnection (Host b))])))
    \<and> (\<forall>err tr'. connectForward w b tr1 = (Inl err, tr') \<longrightarrow>
         AcceptAndTunnel w b p tr = (None, tr' @ [ConClose, LogError err]))"
proof (intro conjI impI allI)
  show "fst (AcceptAndTunnel w b p tr) = None"
    using assms(1,2) unfolding AcceptAndTunnel_def acceptConnection_def
    by (simp add: Let_def split: prod.splits sum.splits)
next
  fix err tr'
  assume "connectForward w b tr1 = (Inl err, tr')"
  then show "AcceptAndTunnel w b p tr = (None, tr' @ [ConClose, LogError err])"
    using assms(1,2) unfolding AcceptAndTunnel_def acceptConnection_def tr1_def
    by (simp add: Let_def)
next
  assume nd: "\<not> dial_ok w tr1"
  from connectForward_first_failure [OF nd, of b]
  obtain ok evs rest where cf: "snd (connectForward w b tr1) = tr3 @ evs @ rest"
    "alive_ok w tr2 \<longrightarrow> ok \<and> evs = []"
    "\<not> alive_ok w tr2 \<longrightarrow> (ok, evs) \<in> set spec_reconnect_outcomes"
    "\<not> ok \<longrightarrow> rest = [] \<and> fst (connectForward w b tr1) = Inl (ErrSSHConnection (Host b))"
    unfolding tr2_def tr3_def by blast
  obtain r tr' where r: "connectForward w b tr1 = (r, tr')" by (cases "connectForward w b tr1")
  have acc: "snd (AcceptAndTunnel w b p tr) = tr' @
      (case r of Inl err \<Rightarrow> [ConClose, LogError err]
               | Inr dest \<Rightarrow> [GoForward SrcToDest, GoForward DestToSrc])"
    using assms(1,2) r unfolding AcceptAndTunnel_def acceptConnection_def tr1_def
    by (simp add: Let_def split: sum.splits)
  let ?tail = "case r of Inl err \<Rightarrow> [ConClose, LogError err]
               | Inr dest \<Rightarrow> [GoForward SrcToDest, GoForward DestToSrc]"
  have "snd (AcceptAndTunnel w b p tr) = tr3 @ evs @ (rest @ ?tail)"
    using acc cf(1) r by simp
  moreover have "\<not> ok \<longrightarrow> rest @ ?tail = [ConClose, LogError (ErrSSHConnection (Host b))]"
    using cf(4) r by auto
  ultimately show "\<exists>ok evs rest. snd (AcceptAndTunnel w b p tr) = tr3 @ evs @ rest
            \<and> (alive_ok w tr2 \<longrightarrow> ok \<and> evs = [])
            \<and> (\<not> alive_ok w tr2 \<longrightarrow> (ok, evs) \<in> set spec_reconnect_outcomes)
            \<and> (\<not> ok \<longrightarrow> rest = [ConClose, LogError (ErrSSHConnection (Host b))])"
    using cf(2,3) by blast
qed


theorem acceptConnection_channel_failure_witness:
  "accept_conn world_down [] = Some (Conn True) \<and> half_close (Conn True)
   \<and> \<not> dial_ok world_down [ListenerAccept True]
   \<and> AcceptAndTunnel world_down bastion_guest ''/tmp/podman.sock'' [] =
       (None, [ListenerAccept True, ClientDial ''unix'' ''/run/podman.sock'' False,
               SendRequest ''alive@gvproxy'' True False,
               Reconnect False, Sleep (200 * Millisecond) True,
               Reconnect False, Sleep (200 * Millisecond) True, Reconnect False,
               ConClose, LogError (ErrSSHConnection ''192.168.127.2'')])"
  using acceptConnection_channel_failure [of world_down "[]" "Conn True" bastion_guest "''/tmp/podman.sock''"]
  by (simp add: AcceptAndTunnel_def acceptConnection_def connectForward_def
      connectForward_loop.simps reconnect_loop.simps sleep_def Let_def world_down_def bastion_guest_def)

section \<open>Properties of the pump\<close>

lemma io_Copy_trace:
  "\<exists>ws. io_Copy wr src tr = tr @ map Write ws
     \<and> prefix (concat ws) (source_bytes src)
     \<and> ((\<forall>tr buf. wr tr buf = (length buf, False)) \<longrightarrow> concat ws = source_bytes src)"
proof (induction src arbitrary: tr)
  case Nil
  show ?case by (intro exI [of _ "[]"]) simp
next
  case (Cons r rs)
  obtain buf er where r: "r = (buf, er)" by (cases r)
  obtain nw failed where w: "wr tr buf = (nw, failed)" by (cases "wr tr buf")
  show ?case
  proof (cases "buf = []")
    case True
    show ?thesis
    proof (cases "er = Continue")
      case False
      with True r show ?thesis by (intro exI [of _ "[]"]) simp
    next
      case c: True
      from Cons.IH [of tr] obtain ws where "io_Copy wr rs tr = tr @ map Write ws"
        "prefix (concat ws) (source_bytes rs)"
        "(\<forall>tr buf. wr tr buf = (length buf, False)) \<longrightarrow> concat ws = source_bytes rs" by blast
      with True c r show ?thesis by (intro exI [of _ ws]) simp
    qed
  next
    case False
    show ?thesis
    proof (cases "nw = length buf \<and> \<not> failed \<and> er = Continue")
      case True
      from Cons.IH [of "tr @ [Write buf]"] obtain ws where
        "io_Copy wr rs (tr @ [Write buf]) = (tr @ [Write buf]) @ map Write ws"
        "prefix (concat ws) (source_bytes rs)"
        "(\<forall>tr buf. wr tr buf = (length buf, False)) \<longrightarrow> concat ws = source_bytes rs" by blast
      with True False r w show ?thesis by (intro exI [of _ "buf # ws"]) (simp add: Let_def)
    next
      case stop: False
      have "io_Copy wr (r # rs) tr = tr @ map Write [take nw buf]"
        using stop False r w by (auto simp: Let_def)
      moreover have "prefix (concat [take nw buf]) (source_bytes (r # rs))"
        using r by (auto simp: take_is_prefix intro: prefix_order.trans [OF take_is_prefix])
      moreover have "(\<forall>tr buf. wr tr buf = (length buf, False)) \<longrightarrow>
          concat [take nw buf] = source_bytes (r # rs)"
        using stop r w by (auto simp: Let_def)
      ultimately show ?thesis by blast
    qed
  qed
qed

text \<open>
  C7. One direction of a tunnel does this and nothing else: a sequence of writes to the
  destination, then \<^verbatim>\<open>CloseWrite\<close> on the destination, then \<^verbatim>\<open>Close\<close> on the source. The
  bytes written, in the order of the writes, are an initial part of the bytes the source
  hands out up to its end of stream or error, and they are all of them when the
  destination takes every write in full. So the half-close comes after every byte that
  was copied.
\<close>

theorem forward_half_close_after_copy:
  "\<exists>ws. forward dest src = map Write ws @ [CloseWrite, SrcClose]
     \<and> prefix (concat ws) (source_bytes src)
     \<and> ((\<forall>tr buf. dest tr buf = (length buf, False)) \<longrightarrow> concat ws = source_bytes src)"
  using io_Copy_trace [of dest src "[]"] unfolding forward_def by auto


theorem forward_half_close_after_copy_witness:
  "(\<forall>tr buf. full_writer tr buf = (length buf, False))
   \<and> source_bytes src_two_reads = [104, 105, 10]
   \<and> forward full_writer src_two_reads = [Write [104, 105], Write [10], CloseWrite, SrcClose]"
  using forward_half_close_after_copy [of full_writer src_two_reads]
  by (simp add: forward_def full_writer_def src_two_reads_def)

section \<open>Properties of the UDP forwarder\<close>

lemma byte_and_255: "(a :: byte) AND 255 = a"
proof -
  have "(255 :: byte) = - 1" by simp
  then show ?thesis by (simp only: and.right_neutral)
qed

lemma Contains_linkLocal_iff:
  "Contains linkLocal a \<longleftrightarrow> (\<exists>c d. a = [169, 254, c, d])"
proof
  assume c: "Contains linkLocal a"
  then have "length a = 4" by (auto simp: Contains_def linkLocal_def split: if_splits)
  then obtain a0 a1 a2 a3 where a: "a = [a0, a1, a2, a3]"
    by (auto simp: length_Suc_conv numeral_eq_Suc)
  with c show "\<exists>c d. a = [169, 254, c, d]"
    by (auto simp: Contains_def linkLocal_def byte_and_255 split: if_splits)
next
  assume "\<exists>c d. a = [169, 254, c, d]"
  then show "Contains linkLocal a"
    by (auto simp: Contains_def linkLocal_def)
qed

text \<open>
  C5. The addresses the handler's proxy dials, for any NAT table, request and outcome of
  \<^verbatim>\<open>CreateEndpoint\<close>: none when the destination is link-local or the endpoint cannot be
  created; otherwise exactly one, whose address is the NAT table's value for the
  destination the guest chose when that is a key of the table and the destination itself
  when it is not, and whose port is the destination port of the flow.
\<close>

theorem UDP_dial_target:
  "dialed (UDP_handler nat_table endpoint_ok r) =
     (if Contains linkLocal (LocalAddress r) \<or> \<not> endpoint_ok then []
      else [(case nat_table (LocalAddress r) of
               Some replaced \<Rightarrow> replaced
             | None \<Rightarrow> LocalAddress r,
             LocalPort r)])"
  by (simp add: UDP_handler_def Let_def)

theorem UDP_dial_target_witness:
  "\<not> Contains linkLocal (LocalAddress flow_to_host)
   \<and> nat_default (LocalAddress flow_to_host) = Some [127, 0, 0, 1]
   \<and> dialed (UDP_handler nat_default True flow_to_host) = [([127, 0, 0, 1], 9000)]
   \<and> dialed (UDP_handler Map.empty True flow_to_host) = [([192, 168, 127, 254], 9000)]"
  using UDP_dial_target [of nat_default True flow_to_host]
    UDP_dial_target [of Map.empty True flow_to_host]
  by (simp add: nat_default_def flow_to_host_def Contains_def linkLocal_def)

text \<open>
  C6. For a flow whose destination is an address of 169.254.0.0/16 the handler does
  nothing: no endpoint is created and no proxy, hence no dial, is set up.
\<close>

theorem UDP_link_local_ignored:
  "LocalAddress r = [169, 254, c, d] \<Longrightarrow> UDP_handler nat_table endpoint_ok r = []"
  by (simp add: UDP_handler_def Contains_linkLocal_iff)

theorem UDP_link_local_ignored_witness:
  "LocalAddress flow_link_local = [169, 254, 169, 254]
   \<and> UDP_handler nat_default True flow_link_local = []"
proof -
  have a: "LocalAddress flow_link_local = [169, 254, 169, 254]"
    by (simp add: flow_link_local_def)
  from a UDP_link_local_ignored [OF a] show ?thesis by simp
qed

section \<open>Properties of the bastion\<close>

lemma hosts_match_iff: "hosts_match host hashhost hs \<longleftrightarrow> host \<in> set hs \<or> hashhost \<in> set hs"
  by (induction hs) auto

lemma HostKey_scan_None:
  "HostKey_scan host hashhost ls = None \<longleftrightarrow>
     (\<forall>hosts key. Some (hosts, key) \<in> set ls \<longrightarrow> host \<notin> set hosts \<and> hashhost \<notin> set hosts)"
  by (induction host hashhost ls rule: HostKey_scan.induct) (auto simp: hosts_match_iff)

lemma HostKey_scan_first:
  assumes "\<forall>hs k. Some (hs, k) \<in> set pre \<longrightarrow> host \<notin> set hs \<and> hashhost \<notin> set hs"
    and "host \<in> set hosts"
  shows "HostKey_scan host hashhost (pre @ Some (hosts, key) # post) = Some key"
  using assms
proof (induction pre)
  case Nil
  then show ?case by (simp add: hosts_match_iff)
next
  case (Cons l pre)
  show ?case
  proof (cases l)
    case None
    with Cons show ?thesis by simp
  next
    case (Some line)
    obtain hs k where line: "line = (hs, k)" by (cases line)
    have "\<not> hosts_match host hashhost hs"
      using Cons.prems(1) Some line by (simp add: hosts_match_iff)
    moreover have "HostKey_scan host hashhost (pre @ Some (hosts, key) # post) = Some key"
      using Cons.IH Cons.prems by auto
    ultimately show ?thesis using Some line by simp
  qed
qed

lemma HostKey_ServerHostKey [simp]: "HostKey (env\<lparr>ServerHostKey := k\<rparr>) host = HostKey env host"
  by (simp add: HostKey_def split: option.splits)

lemma choose_callback_ServerHostKey [simp]:
  "choose_callback (env\<lparr>ServerHostKey := k\<rparr>) u = choose_callback env u"
  by (simp add: choose_callback_def)

lemma PublicKey_ServerHostKey [simp]:
  "PublicKey (env\<lparr>ServerHostKey := k\<rparr>) path pp = PublicKey env path pp"
  by (simp add: PublicKey_def split: option.splits parsed_key.splits)

text \<open>
  C2, as stated, fails: with \<^verbatim>\<open>secure=true\<close> and no line of \<^verbatim>\<open>known_hosts\<close> matching
  the host, \<^verbatim>\<open>CreateBastion\<close> returns no error and the bastion has its client, whatever key
  the server presented.
\<close>

theorem CreateBastion_secure_counterexample:
  "ParseBool (Query_Get (url_Query url_secure) ''secure'')
   \<and> HostKey env_unknown_host (lookup_host url_secure) = None
   \<and> fst (snd (CreateBastion env_unknown_host url_secure [] ''/home/u/.ssh/id'' (Some NetConn))) = None
   \<and> Client (fst (CreateBastion env_unknown_host url_secure [] ''/home/u/.ssh/id'' (Some NetConn)))
       = Some SSHClient"
  by (simp add: ParseBool_def Query_Get_def url_secure_def env_unknown_host_def env_known_host_def
      HostKey_def lookup_host_def CreateBastion_def PublicKey_def User_Password_def
      User_Username_def choose_callback_def reconnect_def NewClientConn_def Let_def)

text \<open>
  C2, amended. Let the \<^verbatim>\<open>secure\<close> parameter parse as true, and let a line of
  \<^verbatim>\<open>known_hosts\<close> list the name looked up (the host name, or \<^verbatim>\<open>[host]:port\<close> when the
  port is not 22) in plain form, no line before it being matched. Then \<^verbatim>\<open>HostKey\<close> returns
  the key of that line, the first one, the callback chosen is \<^verbatim>\<open>FixedHostKey\<close> of that key,
  and a server that presents another key is refused: \<^verbatim>\<open>CreateBastion\<close> returns an error and
  no client. When the parameter is not true, or the file cannot be opened, or no line is
  matched, the key the server presents has no influence on the result. The hash computed
  at the call enters only as a condition: it stands on none of the lines said not to be
  matched. What a line matched through that hash brings about is not part of the statement.
\<close>

theorem CreateBastion_host_key_policy:
  "(ParseBool (Query_Get (url_Query u) ''secure'')
      \<and> KnownHostsFile env = Some (pre @ Some (hosts, key) # post)
      \<and> lookup_host u \<in> set hosts
      \<and> (\<forall>hs k. Some (hs, k) \<in> set pre \<longrightarrow>
            lookup_host u \<notin> set hs \<and> HashHostname env (lookup_host u) \<notin> set hs)
     \<longrightarrow> HostKey env (lookup_host u) = Some key
         \<and> choose_callback env u = FixedHostKey key
         \<and> (ServerHostKey env \<noteq> key \<longrightarrow>
              fst (snd (CreateBastion env u passPhrase identity initial)) \<noteq> None
              \<and> Client (fst (CreateBastion env u passPhrase identity initial)) = None))
   \<and> (\<not> ParseBool (Query_Get (url_Query u) ''secure'')
      \<or> KnownHostsFile env = None
      \<or> (\<exists>ls. KnownHostsFile env = Some ls
            \<and> (\<forall>hs k. Some (hs, k) \<in> set ls \<longrightarrow>
                  lookup_host u \<notin> set hs \<and> HashHostname env (lookup_host u) \<notin> set hs))
     \<longrightarrow> choose_callback env u = InsecureIgnoreHostKey
         \<and> CreateBastion (env\<lparr>ServerHostKey := k'\<rparr>) u passPhrase identity initial
             = CreateBastion env u passPhrase identity initial)"
proof (intro conjI impI)
  assume a: "ParseBool (Query_Get (url_Query u) ''secure'')
      \<and> KnownHostsFile env = Some (pre @ Some (hosts, key) # post)
      \<and> lookup_host u \<in> set hosts
      \<and> (\<forall>hs k. Some (hs, k) \<in> set pre \<longrightarrow>
            lookup_host u \<notin> set hs \<and> HashHostname env (lookup_host u) \<notin> set hs)"
  then show hk: "HostKey env (lookup_host u) = Some key"
    by (simp add: HostKey_def HostKey_scan_first)
  with a show cb: "choose_callback env u = FixedHostKey key"
    by (simp add: choose_callback_def)
  assume other: "ServerHostKey env \<noteq> key"
  show "fst (snd (CreateBastion env u passPhrase identity initial)) \<noteq> None"
    using other cb
    by (auto simp: CreateBastion_def reconnect_def NewClientConn_def Bastion_zero_def Let_def
        split: sum.splits option.splits if_splits)
  show "Client (fst (CreateBastion env u passPhrase identity initial)) = None"
    using other cb
    by (auto simp: CreateBastion_def reconnect_def NewClientConn_def Bastion_zero_def Let_def
        split: sum.splits option.splits if_splits)
next
  assume b: "\<not> ParseBool (Query_Get (url_Query u) ''secure'')
      \<or> KnownHostsFile env = None
      \<or> (\<exists>ls. KnownHostsFile env = Some ls
            \<and> (\<forall>hs k. Some (hs, k) \<in> set ls \<longrightarrow>
                  lookup_host u \<notin> set hs \<and> HashHostname env (lookup_host u) \<notin> set hs))"
  then have "\<not> ParseBool (Query_Get (url_Query u) ''secure'') \<or> HostKey env (lookup_host u) = None"
    by (auto simp: HostKey_def HostKey_scan_None)
  then show cb: "choose_callback env u = InsecureIgnoreHostKey"
    by (auto simp: choose_callback_def)
  show "CreateBastion (env\<lparr>ServerHostKey := k'\<rparr>) u passPhrase identity initial
         = CreateBastion env u passPhrase identity initial"
    using cb
    by (auto simp: CreateBastion_def reconnect_def NewClientConn_def Let_def
        split: sum.splits option.splits)
qed

theorem CreateBastion_host_key_policy_witness:
  "ParseBool (Query_Get (url_Query url_secure) ''secure'')
   \<and> KnownHostsFile env_listed_twice
       = Some ([None, Some ([''10.0.0.1''], PubKey 7)]
               @ Some ([''192.168.127.2'', ''guest''], PubKey 1)
               # [Some ([''192.168.127.2''], PubKey 2)])
   \<and> lookup_host url_secure \<in> set [''192.168.127.2'', ''guest'']
   \<and> HostKey env_listed_twice (lookup_host url_secure) = Some (PubKey 1)
   \<and> ServerHostKey env_listed_twice = PubKey 2
   \<and> fst (snd (CreateBastion env_listed_twice url_secure [] ''/home/u/.ssh/id'' (Some NetConn)))
       \<noteq> None
   \<and> Client (fst (CreateBastion env_listed_twice url_secure [] ''/home/u/.ssh/id'' (Some NetConn)))
       = None
   \<and> choose_callback env_unknown_host url_secure = InsecureIgnoreHostKey
   \<and> CreateBastion (env_unknown_host\<lparr>ServerHostKey := PubKey 3\<rparr>) url_secure []
         ''/home/u/.ssh/id'' (Some NetConn)
       = CreateBastion env_unknown_host url_secure [] ''/home/u/.ssh/id'' (Some NetConn)"
proof -
  have secure: "ParseBool (Query_Get (url_Query url_secure) ''secure'')"
    by (simp add: ParseBool_def Query_Get_def url_secure_def)
  have name: "lookup_host url_secure = ''192.168.127.2''"
    by (simp add: lookup_host_def url_secure_def)
  have listed: "KnownHostsFile env_listed_twice
       = Some ([None, Some ([''10.0.0.1''], PubKey 7)]
               @ Some ([''192.168.127.2'', ''guest''], PubKey 1)
               # [Some ([''192.168.127.2''], PubKey 2)])"
    by (simp add: env_listed_twice_def env_known_host_def)
  have before: "\<forall>hs k. Some (hs, k) \<in> set [None, Some ([''10.0.0.1''], PubKey 7)] \<longrightarrow>
      lookup_host url_secure \<notin> set hs
      \<and> HashHostname env_listed_twice (lookup_host url_secure) \<notin> set hs"
    by (simp add: name env_listed_twice_def env_known_host_def)
  have server: "ServerHostKey env_listed_twice = PubKey 2"
    by (simp add: env_listed_twice_def env_known_host_def)
  have nofile: "\<exists>ls. KnownHostsFile env_unknown_host = Some ls
      \<and> (\<forall>hs k. Some (hs, k) \<in> set ls \<longrightarrow>
            lookup_host url_secure \<notin> set hs
            \<and> HashHostname env_unknown_host (lookup_host url_secure) \<notin> set hs)"
    by (simp add: name env_unknown_host_def env_known_host_def)
  from CreateBastion_host_key_policy [of url_secure env_listed_twice
      "[None, Some ([''10.0.0.1''], PubKey 7)]" "[''192.168.127.2'', ''guest'']" "PubKey 1"
      "[Some ([''192.168.127.2''], PubKey 2)]" "[]" "''/home/u/.ssh/id''" "Some NetConn"]
    secure listed before server
  have pinned: "HostKey env_listed_twice (lookup_host url_secure) = Some (PubKey 1)"
    "fst (snd (CreateBastion env_listed_twice url_secure [] ''/home/u/.ssh/id'' (Some NetConn)))
       \<noteq> None"
    "Client (fst (CreateBastion env_listed_twice url_secure [] ''/home/u/.ssh/id'' (Some NetConn)))
       = None"
    by (simp_all add: name)
  from CreateBastion_host_key_policy [of url_secure env_unknown_host _ _ _ _ "[]"
      "''/home/u/.ssh/id''" "Some NetConn" "PubKey 3"] nofile
  have ignored: "choose_callback env_unknown_host url_secure = InsecureIgnoreHostKey"
    "CreateBastion (env_unknown_host\<lparr>ServerHostKey := PubKey 3\<rparr>) url_secure []
         ''/home/u/.ssh/id'' (Some NetConn)
       = CreateBastion env_unknown_host url_secure [] ''/home/u/.ssh/id'' (Some NetConn)"
    by simp_all
  from secure listed server pinned ignored show ?thesis by (simp add: name)
qed

text \<open>
  C10. With an empty identity path and no password in the URL's user information,
  \<^verbatim>\<open>CreateBastion\<close> returns the zero bastion and the error "No available auth methods",
  having called neither the connect callback nor the SSH handshake.
\<close>

theorem CreateBastion_no_auth_methods:
  "identity = [] \<Longrightarrow> User_Password (url_User u) = None \<Longrightarrow>
     CreateBastion env u passPhrase identity initial = (Bastion_zero, Some ErrNoAuthMethods, [])"
  by (simp add: CreateBastion_def)

theorem CreateBastion_no_auth_methods_witness:
  "User_Password (url_User url_secure) = None
   \<and> CreateBastion env_known_host url_secure [] [] (Some NetConn)
       = (Bastion_zero, Some ErrNoAuthMethods, [])"
proof -
  have p: "User_Password (url_User url_secure) = None"
    by (simp add: User_Password_def url_secure_def)
  from p CreateBastion_no_auth_methods [OF refl p, of env_known_host "[]" "Some NetConn"]
  show ?thesis by simp
qed

section \<open>Properties of the command\<close>

text \<open>
  The exit status: 1 when validation or the PID file fails, and 0 in every other run that
  exits, a signal among them. The value of \<^verbatim>\<open>exitCode\<close> does not reach the status.
\<close>

lemma validate_fatal_exit:
  "validate env f = Some err \<Longrightarrow> main env f h = Some (1, 0)"
  by (simp add: main_def exitWithError_def)

lemma main_exit_status:
  "main env f h = Some (status, code) \<Longrightarrow>
     status = (if validate env f = None \<and> (\<exists>ds. create_pidFile env f [Defer_os_Exit 0] = Inr ds)
               then 0 else 1)"
  by (auto simp: main_def exitWithError_def create_pidFile_def Let_def
      split: option.splits sum.splits if_splits)

lemma main_signal_exit:
  "validate env f = None \<Longrightarrow> create_pidFile env f [Defer_os_Exit 0] = Inr ds \<Longrightarrow>
     fst (run env f (if length (endpoints f) = 0 then [DefaultURL] else endpoints f)) = None \<Longrightarrow>
     main env f Signal = Some (0, 1)"
  by (auto simp: main_def group_Wait_def create_pidFile_def Let_def split: if_splits)

text \<open>
  C1. With the default flags on a system where the listener cannot be opened, validation
  passes, \<^verbatim>\<open>run\<close> fails with "cannot listen", \<^verbatim>\<open>main\<close> sets \<^verbatim>\<open>exitCode\<close> to 1, and the
  process exits with status 0: the deferred \<^verbatim>\<open>os.Exit\<close> took its argument when the
  \<^verbatim>\<open>defer\<close> statement ran.
\<close>

theorem main_run_error_exit_status:
  "validate env_listen_fails flags_default = None
   \<and> fst (run env_listen_fails flags_default [DefaultURL]) = Some (ErrCannotListen DefaultURL)
   \<and> main env_listen_fails flags_default Nothing = Some (0, 1)"
  by (simp add: main_def validate_def check_qemuSocket_def check_forward_def create_pidFile_def
      run_def group_Wait_def flags_default_def env_listen_fails_def env_ok_def Let_def)

lemma check_forward_fatal:
  "check_forward env f = Inl err \<Longrightarrow> \<exists>err'. validate env f = Some err'"
  by (auto simp: validate_def split: option.splits)

text \<open>
  C8, as stated, fails: with all four forward flags given and an identity file that
  cannot be examined, start-up does not go on; it ends with the identity-file error.
\<close>

theorem forward_flags_counterexample:
  "forward_flags_given flags_four = 4
   \<and> check_forward env_ok flags_four = Inl (ErrIdentityFile ''/missing/id'')
   \<and> main env_ok flags_four Nothing = Some (1, 0)"
  by (simp add: forward_flags_given_def flags_four_def flags_default_def env_ok_def
      check_forward_def main_def validate_def check_qemuSocket_def exitWithError_def Let_def)

text \<open>
  C8, amended. When one, two or three of the four forward flags are given, lines 92-112
  end in a fatal error and the process exits with status 1. When none is given the lines
  let start-up go on. When all four are given they let start-up go on if the identity file
  can be examined and end with the identity-file error if not. The error about flags that
  must be given together arises exactly for one to three flags whose identity file, if
  named, can be examined.
\<close>

theorem forward_flags_together:
  "(forward_flags_given f \<in> {1, 2, 3} \<longrightarrow>
      (\<exists>err. check_forward env f = Inl err) \<and> main env f h = Some (1, 0))
   \<and> (forward_flags_given f = 0 \<longrightarrow> check_forward env f = Inr 0)
   \<and> (forward_flags_given f = 4 \<longrightarrow>
        check_forward env f = (if Stat_ok env (forwardIdentify f) then Inr 4
                               else Inl (ErrIdentityFile (forwardIdentify f))))
   \<and> (check_forward env f = Inl ErrForwardTogether \<longleftrightarrow>
        forward_flags_given f \<in> {1, 2, 3}
        \<and> (forwardIdentify f = [] \<or> Stat_ok env (forwardIdentify f)))"
proof (intro conjI impI)
  assume n: "forward_flags_given f \<in> {1, 2, 3}"
  then show e: "\<exists>err. check_forward env f = Inl err"
    by (auto simp: forward_flags_given_def check_forward_def Let_def split: if_splits)
  then obtain err' where "validate env f = Some err'" using check_forward_fatal by blast
  then show "main env f h = Some (1, 0)" by (rule validate_fatal_exit)
next
  assume "forward_flags_given f = 0"
  then show "check_forward env f = Inr 0"
    by (auto simp: forward_flags_given_def check_forward_def Let_def split: if_splits)
next
  assume "forward_flags_given f = 4"
  then show "check_forward env f = (if Stat_ok env (forwardIdentify f) then Inr 4
                               else Inl (ErrIdentityFile (forwardIdentify f)))"
    by (auto simp: forward_flags_given_def check_forward_def Let_def split: if_splits)
next
  show "check_forward env f = Inl ErrForwardTogether \<longleftrightarrow>
        forward_flags_given f \<in> {1, 2, 3}
        \<and> (forwardIdentify f = [] \<or> Stat_ok env (forwardIdentify f))"
    by (auto simp: forward_flags_given_def check_forward_def Let_def split: if_splits)
qed

theorem forward_flags_together_witness:
  "forward_flags_given flags_user_only = 1
   \<and> check_forward env_ok flags_user_only = Inl ErrForwardTogether
   \<and> main env_ok flags_user_only Signal = Some (1, 0)
   \<and> forward_flags_given flags_default = 0
   \<and> check_forward env_ok flags_default = Inr 0
   \<and> forward_flags_given flags_four = 4
   \<and> check_forward (env_ok\<lparr>Stat_ok := (\<lambda>path. True)\<rparr>) flags_four = Inr 4"
  using forward_flags_together [of flags_user_only env_ok Signal]
    forward_flags_together [of flags_default env_ok Signal]
    forward_flags_together [of flags_four "env_ok\<lparr>Stat_ok := (\<lambda>path. True)\<rparr>" Signal]
  by (simp add: forward_flags_given_def flags_user_only_def flags_four_def flags_default_def
      env_ok_def check_forward_def Let_def)


lemma qemu_accept_calls_append [simp]:
  "qemu_accept_calls a l (ts @ ts') = qemu_accept_calls a l ts + qemu_accept_calls a l ts'"
  by (simp add: qemu_accept_calls_def)

lemma qemu_accept_calls_simps [simp]:
  "qemu_accept_calls a l [] = 0"
  "qemu_accept_calls a l (QemuAcceptOnce # ts) = 1 + qemu_accept_calls a l ts"
  "t \<noteq> QemuAcceptOnce \<Longrightarrow> qemu_accept_calls a l (t # ts) = qemu_accept_calls a l ts"
  by (cases t; simp add: qemu_accept_calls_def qemu_accept_task_def)+

lemma run_endpoints_qemu_accept_calls:
  "qemu_accept_calls a l (snd (run_endpoints env eps ts)) = qemu_accept_calls a l ts"
  by (induction eps arbitrary: ts) simp_all

text \<open>
  C9. Over all the tasks \<^verbatim>\<open>run\<close> starts, \<^verbatim>\<open>Accept\<close> is called on the qemu listener at
  most once, and only when \<^verbatim>\<open>--listen-qemu\<close> is given; it is called exactly once when the
  flag is given and \<^verbatim>\<open>run\<close> returns nil. The task that calls it hands a connection it got
  to \<^verbatim>\<open>AcceptQemu\<close> and does nothing after that.
\<close>

theorem qemu_accepts_once:
  "qemu_accept_calls accept_ok link_ok (snd (run env f eps)) \<le> 1
   \<and> (qemu_accept_calls accept_ok link_ok (snd (run env f eps)) = 1 \<longrightarrow> qemuSocket f \<noteq> [])
   \<and> (qemuSocket f \<noteq> [] \<and> fst (run env f eps) = None \<longrightarrow>
        qemu_accept_calls accept_ok link_ok (snd (run env f eps)) = 1)
   \<and> snd (qemu_accept_task True link_ok) = [QemuListenerAccept True, AcceptQemu]
   \<and> snd (qemu_accept_task False link_ok) = [QemuListenerAccept False]"
proof -
  obtain r ts where re: "run_endpoints env eps [] = (r, ts)" by (cases "run_endpoints env eps []")
  have ts: "qemu_accept_calls accept_ok link_ok ts = 0"
    using run_endpoints_qemu_accept_calls [of accept_ok link_ok env eps "[]"] re by simp
  show ?thesis
    using re ts
    by (cases r) (auto simp: run_def Let_def qemu_accept_task_def)
qed

theorem qemu_accepts_once_witness:
  "qemuSocket flags_qemu \<noteq> [] \<and> fst (run env_ok flags_qemu [DefaultURL]) = None
   \<and> snd (run env_ok flags_qemu [DefaultURL])
       = [ListenerClose DefaultURL, HttpServe DefaultURL, QemuClose, QemuAcceptOnce]
   \<and> qemu_accept_calls True True (snd (run env_ok flags_qemu [DefaultURL])) = 1"
  using qemu_accepts_once [of True True env_ok flags_qemu "[DefaultURL]"]
  by (simp add: run_def flags_qemu_def flags_default_def env_ok_def Let_def)

end
